theory Spec2Isabelle
  imports Complex_Main "HOL-Library.Char_ord" "HOL-Library.List_Lexorder"
begin

section \<open>JavaScript strings\<close>

text \<open>
  A JavaScript string is a sequence of UTF-16 code units. The model uses \<open>string\<close>, so
  every \<open>char\<close> stands for one code unit below 256 (the Latin-1 range); on that range
  \<open>length\<close>, \<open>take\<close>, the order of \<open>Array.prototype.sort\<close> (code unit by code unit,
  a proper prefix first), \<open>trim\<close> and \<open>toLowerCase\<close> are the ones of the language.
\<close>

definition isWhiteSpace :: "char \<Rightarrow> bool" where
  "isWhiteSpace c = ((of_char c :: nat) \<in> {9, 10, 11, 12, 13, 32, 160})"

definition trim :: "string \<Rightarrow> string" where
  "trim s = rev (dropWhile isWhiteSpace (rev (dropWhile isWhiteSpace s)))"

definition toLowerChar :: "char \<Rightarrow> char" where
  "toLowerChar c =
     (let n = (of_char c :: nat)
      in if (65 \<le> n \<and> n \<le> 90) \<or> (192 \<le> n \<and> n \<le> 222 \<and> n \<noteq> 215)
         then char_of (n + 32) else c)"

definition toLowerCase :: "string \<Rightarrow> string" where
  "toLowerCase s = map toLowerChar s"

fun startsWith :: "string \<Rightarrow> string \<Rightarrow> bool" where
  "startsWith s [] = True"
| "startsWith [] (p # ps) = False"
| "startsWith (c # cs) (p # ps) = (c = p \<and> startsWith cs ps)"

fun includesStr :: "string \<Rightarrow> string \<Rightarrow> bool" where
  "includesStr [] t = (t = [])"
| "includesStr (c # cs) t = (startsWith (c # cs) t \<or> includesStr cs t)"

fun join :: "string list \<Rightarrow> string \<Rightarrow> string" where
  "join [] sep = []"
| "join [x] sep = x"
| "join (x # y # ys) sep = x @ sep @ join (y # ys) sep"

section \<open>The pipeline state and its nodes (rag-chain.ts)\<close>

record Document =
  pageContent :: string
  metadata :: string

record ChatOpenAI =
  modelName :: string
  temperature :: int

record turn =
  role :: string
  content :: string

datatype jserror = Error string

fun errorMessage :: "jserror \<Rightarrow> string" where
  "errorMessage (Error m) = m"

text \<open>
  \<open>GraphInterface\<close>: every field but \<open>question\<close> is optional in the source; an absent
  (\<open>undefined\<close>) field is \<open>None\<close>. A vector store is an object reference.
\<close>

record GraphInterface =
  question :: string
  urls :: "string list option"
  generatedAnswer :: "string option"
  documents :: "Document list option"
  model :: "ChatOpenAI option"
  conversationHistory :: "turn list option"
  vectorStore :: "nat option"

text \<open>
  What a node returns: an object holding some of the keys. The last field is the key
  \<open>gradeGeneratedAnswer\<close> that the blank branch of the answer grader writes; it is no
  key of \<open>GraphInterface\<close>.
\<close>

record update =
  u_question :: "string option"
  u_urls :: "string list option"
  u_generatedAnswer :: "string option"
  u_documents :: "Document list option"
  u_model :: "ChatOpenAI option"
  u_conversationHistory :: "turn list option"
  u_vectorStore :: "nat option"
  u_gradeGeneratedAnswer :: "string option"

definition noKeys :: update where
  "noKeys = \<lparr>u_question = None, u_urls = None, u_generatedAnswer = None,
     u_documents = None, u_model = None, u_conversationHistory = None,
     u_vectorStore = None, u_gradeGeneratedAnswer = None\<rparr>"

text \<open>The object \<open>{...state}\<close>, and \<open>state\<close> itself when a node returns it.\<close>

definition spread :: "GraphInterface \<Rightarrow> update" where
  "spread state = \<lparr>u_question = Some (question state), u_urls = urls state,
     u_generatedAnswer = generatedAnswer state, u_documents = documents state,
     u_model = model state, u_conversationHistory = conversationHistory state,
     u_vectorStore = vectorStore state, u_gradeGeneratedAnswer = None\<rparr>"

text \<open>
  The services outside the program. Each chain invocation either resolves with a string
  or rejects with an error. The relevance judge is asked once per chunk, so its answer
  may depend on the number of the call as well as on the prompt's inputs.
  \<open>retriever vs k q\<close> is the top-\<open>k\<close> query on the store \<open>vs\<close>;
  \<open>retrieveDoc\<close> builds a private store from the URLs and queries it.
  \<open>buildResult n us\<close> is the error, if any, with which the \<open>n\<close>-th run of
  \<open>buildVectorStore\<close> fails on the URLs \<open>us\<close>, and \<open>buildTime n us\<close> the
  milliseconds it takes; \<open>graphTime\<close> is the duration of the pipeline run,
  \<open>production\<close> is \<open>NODE_ENV === "production"\<close> and \<open>random\<close> the value of
  \<open>Math.random()\<close>.
\<close>

record world =
  docGrader :: "nat \<Rightarrow> string \<Rightarrow> string \<Rightarrow> jserror + string"
  graderChain :: "string \<Rightarrow> string \<Rightarrow> jserror + string"
  ragChain :: "string \<Rightarrow> string \<Rightarrow> string \<Rightarrow> jserror + string"
  retriever :: "nat \<Rightarrow> nat \<Rightarrow> string \<Rightarrow> jserror + Document list"
  retrieveDoc :: "string list \<Rightarrow> string \<Rightarrow> jserror + Document list"
  buildResult :: "nat \<Rightarrow> string list \<Rightarrow> jserror option"
  buildTime :: "nat \<Rightarrow> string list \<Rightarrow> nat"
  graphTime :: nat
  production :: bool
  random :: real

definition createModel :: ChatOpenAI where
  "createModel = \<lparr>modelName = ''gpt-4.1'', temperature = 0\<rparr>"

definition couldNotFind :: string where
  "couldNotFind =
     ''I couldn't find a relevant answer to your question. Can I assist you with anything else?''"

definition incompleteNote :: string where
  "incompleteNote = '' (Note: This information may be incomplete based on available documents.)''"

definition gradeGeneratedAnswer :: "world \<Rightarrow> GraphInterface \<Rightarrow> update" where
  "gradeGeneratedAnswer w state =
     (case generatedAnswer state of
        None \<Rightarrow> noKeys\<lparr>u_gradeGeneratedAnswer := Some couldNotFind\<rparr>
      | Some answer \<Rightarrow>
          if answer = [] \<or> trim answer = []
          then noKeys\<lparr>u_gradeGeneratedAnswer := Some couldNotFind\<rparr>
          else (case graderChain w (question state) answer of
                  Inr result \<Rightarrow>
                    if trim (toLowerCase result) = ''no''
                    then (spread state)\<lparr>u_generatedAnswer := Some (answer @ incompleteNote)\<rparr>
                    else spread state
                | Inl error \<Rightarrow> spread state))"

definition renderTurn :: "turn \<Rightarrow> string" where
  "renderTurn msg = (if role msg = ''user'' then ''User'' else ''Assistant'') @ '': '' @ content msg"

definition generateAnswer :: "world \<Rightarrow> GraphInterface \<Rightarrow> jserror + update" where
  "generateAnswer w state =
     (let docs = (case documents state of None \<Rightarrow> [] | Some ds \<Rightarrow> ds);
          history = (case conversationHistory state of None \<Rightarrow> [] | Some h \<Rightarrow> h);
          historyContext =
            (if length history > 0
             then join (map renderTurn (drop (length history - 6) history)) [CHR 0x0A]
             else []);
          context = join (map pageContent docs) [CHR 0x0A, CHR 0x0A]
      in case ragChain w historyContext context (question state) of
           Inl error \<Rightarrow> Inl error
         | Inr answer \<Rightarrow> Inr (noKeys\<lparr>u_generatedAnswer := Some answer\<rparr>))"

definition hasRelevantDocs :: "GraphInterface \<Rightarrow> string" where
  "hasRelevantDocs state =
     (let relevantDocs = (case documents state of None \<Rightarrow> [] | Some ds \<Rightarrow> ds)
      in if length relevantDocs = 0 then ''no'' else ''yes'')"

text \<open>
  The loop of \<open>documentGrader\<close>: \<open>i\<close> counts the judge calls made so far and
  \<open>relevantDocs\<close> is the array being filled.
\<close>

fun gradeLoop :: "world \<Rightarrow> string \<Rightarrow> nat \<Rightarrow> Document list \<Rightarrow> Document list \<Rightarrow> Document list" where
  "gradeLoop w q i [] relevantDocs = relevantDocs"
| "gradeLoop w q i (doc # docs) relevantDocs =
     (case docGrader w i q (take 1000 (pageContent doc)) of
        Inr result \<Rightarrow>
          if includesStr (toLowerCase result) ''yes''
          then gradeLoop w q (Suc i) docs (relevantDocs @ [doc])
          else gradeLoop w q (Suc i) docs relevantDocs
      | Inl error \<Rightarrow> gradeLoop w q (Suc i) docs (relevantDocs @ [doc]))"

definition documentGrader :: "world \<Rightarrow> GraphInterface \<Rightarrow> update" where
  "documentGrader w state =
     (let docs = (case documents state of None \<Rightarrow> [] | Some ds \<Rightarrow> ds);
          m = (case model state of None \<Rightarrow> createModel | Some m \<Rightarrow> m);
          relevantDocs = gradeLoop w (question state) 0 docs [];
          relevantDocs =
            (if length relevantDocs = 0 \<and> length docs > 0
             then relevantDocs @ take (min 3 (length docs)) docs
             else relevantDocs)
      in (spread state)\<lparr>u_documents := Some relevantDocs, u_model := Some m\<rparr>)"

definition retrieveDocNode :: "world \<Rightarrow> GraphInterface \<Rightarrow> jserror + update" where
  "retrieveDocNode w state =
     (let us = (case urls state of None \<Rightarrow> [] | Some us \<Rightarrow> us)
      in case vectorStore state of
           Some vectorStoreInstance \<Rightarrow>
             (case retriever w vectorStoreInstance 10 (question state) of
                Inl error \<Rightarrow> Inl error
              | Inr retrievedDocs \<Rightarrow> Inr (noKeys\<lparr>u_documents := Some retrievedDocs\<rparr>))
         | None \<Rightarrow>
             (case retrieveDoc w us (question state) of
                Inl error \<Rightarrow> Inl error
              | Inr ds \<Rightarrow> Inr (noKeys\<lparr>u_documents := Some ds\<rparr>)))"

definition createModelNode :: "GraphInterface \<Rightarrow> update" where
  "createModelNode state = noKeys\<lparr>u_model := Some createModel\<rparr>"

definition formatDocuments :: "Document list \<Rightarrow> string list" where
  "formatDocuments docs = map pageContent docs"

text \<open>
  \<open>GraphState\<close>: the channels and their reducers. \<open>GraphState x y\<close> is the state
  after a node's output \<open>y\<close> has been written to the channels holding \<open>x\<close>; a key
  that is no channel (\<open>gradeGeneratedAnswer\<close>) is written nowhere.
\<close>

definition GraphState :: "GraphInterface \<Rightarrow> update \<Rightarrow> GraphInterface" where
  "GraphState x y =
     \<lparr>question = (case u_question y of None \<Rightarrow> question x | Some q \<Rightarrow> q),
      urls = (case u_urls y of None \<Rightarrow> urls x | Some v \<Rightarrow> Some v),
      generatedAnswer =
        (case u_generatedAnswer y of
           None \<Rightarrow> generatedAnswer x
         | Some v \<Rightarrow> if v = [] then generatedAnswer x else Some v),
      documents = (case u_documents y of None \<Rightarrow> documents x | Some v \<Rightarrow> Some v),
      model = (case u_model y of None \<Rightarrow> model x | Some v \<Rightarrow> Some v),
      conversationHistory =
        (case u_conversationHistory y of None \<Rightarrow> conversationHistory x | Some v \<Rightarrow> Some v),
      vectorStore = (case u_vectorStore y of None \<Rightarrow> vectorStore x | Some v \<Rightarrow> Some v)\<rparr>"

text \<open>The channels' defaults; \<open>question\<close> has none and is set by the input.\<close>

definition channelDefaults :: GraphInterface where
  "channelDefaults =
     \<lparr>question = [], urls = Some [], generatedAnswer = Some [], documents = Some [],
      model = None, conversationHistory = Some [], vectorStore = None\<rparr>"

text \<open>
  The compiled graph. \<open>gradedState\<close> runs \<open>retrieve_documents\<close>, \<open>create_model\<close> and
  \<open>grade_documents\<close>; \<open>graph_invoke\<close> then follows the conditional edge. A run records
  the nodes it entered, in order, and either the final state or the error a node threw.
\<close>

record run =
  visited :: "string list"
  outcome :: "jserror + GraphInterface"

definition gradedState :: "world \<Rightarrow> update \<Rightarrow> jserror + GraphInterface" where
  "gradedState w input =
     (let s0 = GraphState channelDefaults input
      in case retrieveDocNode w s0 of
           Inl error \<Rightarrow> Inl error
         | Inr u1 \<Rightarrow>
             (let s1 = GraphState s0 u1;
                  s2 = GraphState s1 (createModelNode s1)
              in Inr (GraphState s2 (documentGrader w s2))))"

definition graph_invoke :: "world \<Rightarrow> update \<Rightarrow> run" where
  "graph_invoke w input =
     (case gradedState w input of
        Inl error \<Rightarrow> \<lparr>visited = [''retrieve_documents''], outcome = Inl error\<rparr>
      | Inr s3 \<Rightarrow>
          if hasRelevantDocs s3 = ''yes''
          then (case generateAnswer w s3 of
                  Inl error \<Rightarrow>
                    \<lparr>visited = [''retrieve_documents'', ''create_model'', ''grade_documents'',
                       ''generate_answer''],
                     outcome = Inl error\<rparr>
                | Inr u4 \<Rightarrow>
                    (let s4 = GraphState s3 u4
                     in \<lparr>visited = [''retrieve_documents'', ''create_model'', ''grade_documents'',
                            ''generate_answer'', ''grade_generated_answer''],
                         outcome = Inr (GraphState s4 (gradeGeneratedAnswer w s4))\<rparr>))
          else \<lparr>visited = [''retrieve_documents'', ''create_model'', ''grade_documents''],
                outcome = Inr s3\<rparr>)"

text \<open>The object both handlers pass to \<open>graph.invoke\<close>.\<close>

definition invokeInput :: "string \<Rightarrow> string list \<Rightarrow> nat \<Rightarrow> turn list \<Rightarrow> update" where
  "invokeInput q us vs history =
     noKeys\<lparr>u_question := Some q, u_urls := Some us, u_vectorStore := Some vs,
       u_conversationHistory := Some history\<rparr>"

section \<open>The server (server.ts)\<close>

text \<open>
  The fields of a request body, as JSON delivers them. The elements of an array are taken
  to be strings, the type \<open>getOrCreateVectorStore\<close> declares for them.
\<close>

datatype jsval = JUndefined | JNull | JBool bool | JNum int | JStr string
  | JArr "string list" | JObj

fun truthy :: "jsval \<Rightarrow> bool" where
  "truthy JUndefined = False"
| "truthy JNull = False"
| "truthy (JBool b) = b"
| "truthy (JNum n) = (n \<noteq> 0)"
| "truthy (JStr s) = (s \<noteq> [])"
| "truthy (JArr xs) = True"
| "truthy JObj = True"

text \<open>
  The module's state: the cache, and a log of what the handlers did to the cache, the
  index builder and the graph. A vector store is the reference of the object
  \<open>buildVectorStore\<close> allocates: the number of the build that made it.
\<close>

datatype effect = CacheHas string | BuildVectorStore "string list" | GraphInvoke update

fun isBuild :: "effect \<Rightarrow> bool" where
  "isBuild (BuildVectorStore us) = True"
| "isBuild e = False"

record server =
  vectorStoreCache :: "string \<rightharpoonup> nat"
  effects :: "effect list"

definition buildCount :: "server \<Rightarrow> nat" where
  "buildCount srv = length (filter isBuild (effects srv))"

text \<open>
  \<open>getOrCreateVectorStore\<close> runs in two turns of the event loop: from its call to
  \<open>await buildVectorStore(urls)\<close>, and, once that promise resolves, from there to its
  return. \<open>urls.sort()\<close> sorts the caller's array in place, so the array is returned
  with the state.
\<close>

datatype started = Cached nat | Building string nat

definition getOrCreateVectorStore_begin :: "server \<Rightarrow> string list \<Rightarrow> server \<times> string list \<times> started" where
  "getOrCreateVectorStore_begin srv urlList =
     (let sortedUrls = sort urlList;
          cacheKey = join sortedUrls ''|'';
          srv1 = srv\<lparr>effects := effects srv @ [CacheHas cacheKey]\<rparr>
      in case vectorStoreCache srv cacheKey of
           Some vs \<Rightarrow> (srv1, sortedUrls, Cached vs)
         | None \<Rightarrow>
             (srv1\<lparr>effects := effects srv1 @ [BuildVectorStore sortedUrls]\<rparr>, sortedUrls,
              Building cacheKey (buildCount srv)))"

definition getOrCreateVectorStore_resume :: "server \<Rightarrow> string \<Rightarrow> nat \<Rightarrow> server" where
  "getOrCreateVectorStore_resume srv cacheKey vs =
     srv\<lparr>vectorStoreCache := (vectorStoreCache srv)(cacheKey \<mapsto> vs)\<rparr>"

text \<open>A call that is awaited with nothing else running in between.\<close>

record settled =
  serverAfter :: server
  urlsAfter :: "string list"
  settledWith :: "jserror + nat"
  elapsed :: nat

definition getOrCreateVectorStore :: "world \<Rightarrow> server \<Rightarrow> string list \<Rightarrow> settled" where
  "getOrCreateVectorStore w srv urlList =
     (case getOrCreateVectorStore_begin srv urlList of
        (srv1, sortedUrls, Cached vs) \<Rightarrow>
          \<lparr>serverAfter = srv1, urlsAfter = sortedUrls, settledWith = Inr vs, elapsed = 0\<rparr>
      | (srv1, sortedUrls, Building cacheKey vs) \<Rightarrow>
          (case buildResult w vs sortedUrls of
             Some error \<Rightarrow>
               \<lparr>serverAfter = srv1, urlsAfter = sortedUrls, settledWith = Inl error,
                 elapsed = buildTime w vs sortedUrls\<rparr>
           | None \<Rightarrow>
               \<lparr>serverAfter = getOrCreateVectorStore_resume srv1 cacheKey vs, urlsAfter = sortedUrls,
                 settledWith = Inr vs, elapsed = buildTime w vs sortedUrls\<rparr>))"

text \<open>Awaited calls, one after the other: the final state and what each caller got.\<close>

fun callsInTurn :: "world \<Rightarrow> server \<Rightarrow> string list list \<Rightarrow> server \<times> (jserror + nat) list" where
  "callsInTurn w srv [] = (srv, [])"
| "callsInTurn w srv (urlList # rest) =
     (let g = getOrCreateVectorStore w srv urlList;
          (srv', rs) = callsInTurn w (serverAfter g) rest
      in (srv', settledWith g # rs))"

text \<open>
  Calls that overlap. The event loop runs one turn at a time: a new call runs to its
  \<open>await\<close>; a pending build resolves and its caller runs to the return; or a pending
  build rejects and its caller throws.
\<close>

datatype promise = Pending string nat | Fulfilled nat | RejectedWith jserror

record eventLoop =
  shared :: server
  callers :: "promise list"

datatype event = Call "string list" | BuildResolves nat | BuildRejects nat jserror

fun step :: "eventLoop \<Rightarrow> event \<Rightarrow> eventLoop" where
  "step el (Call urlList) =
     (case getOrCreateVectorStore_begin (shared el) urlList of
        (srv1, sortedUrls, Cached vs) \<Rightarrow> \<lparr>shared = srv1, callers = callers el @ [Fulfilled vs]\<rparr>
      | (srv1, sortedUrls, Building cacheKey vs) \<Rightarrow>
          \<lparr>shared = srv1, callers = callers el @ [Pending cacheKey vs]\<rparr>)"
| "step el (BuildResolves i) =
     (if i < length (callers el)
      then (case callers el ! i of
              Pending cacheKey vs \<Rightarrow>
                \<lparr>shared = getOrCreateVectorStore_resume (shared el) cacheKey vs,
                  callers = (callers el)[i := Fulfilled vs]\<rparr>
            | _ \<Rightarrow> el)
      else el)"
| "step el (BuildRejects i error) =
     (if i < length (callers el)
      then (case callers el ! i of
              Pending cacheKey vs \<Rightarrow> el\<lparr>callers := (callers el)[i := RejectedWith error]\<rparr>
            | _ \<Rightarrow> el)
      else el)"

definition runEvents :: "server \<Rightarrow> event list \<Rightarrow> eventLoop" where
  "runEvents srv es = foldl step \<lparr>shared = srv, callers = []\<rparr> es"

definition coldServer :: server where
  "coldServer = \<lparr>vectorStoreCache = Map.empty, effects = []\<rparr>"

text \<open>
  Responses. The \<open>message\<close> of a chat reply is a string, except where the source
  hands \<open>res.json\<close> something else: \<open>undefined\<close> or a function (JSON drops the
  key) or a plain object.
\<close>

datatype jsonMessage = Text string | Omitted | EmptyObject

datatype payload =
    BadRequest string
  | ChatReply jsonMessage "string list"
  | Failure string string
  | QueryReply string "string list" nat "string option"

record response =
  status :: nat
  payload :: payload

text \<open>
  The \<open>/api/chat\<close> handler's own variables: the \<open>responseSent\<close> flag and the calls
  of \<open>res.status(..).json(..)\<close> made so far. The timers are not objects of the model:
  a race is decided by comparing the duration of the awaited work with the timer's delay
  (the timer wins a tie).
\<close>

record handler =
  responseSent :: bool
  sent :: "response list"

definition sendResponse :: "handler \<Rightarrow> nat \<Rightarrow> payload \<Rightarrow> handler" where
  "sendResponse h st body =
     (if \<not> responseSent h
      then h\<lparr>responseSent := True, sent := sent h @ [\<lparr>status = st, payload = body\<rparr>]\<rparr>
      else h)"

definition DEFAULT_TIMEOUT_MS :: "world \<Rightarrow> nat" where
  "DEFAULT_TIMEOUT_MS w = (if production w then 25000 else 120000)"

definition FIRST_LOAD_TIMEOUT_MS :: nat where
  "FIRST_LOAD_TIMEOUT_MS = 180000"

text \<open>The error \<open>createTimeoutPromise\<close> rejects with.\<close>

definition timeoutError :: jserror where
  "timeoutError = Error ''Request timeout: The operation took too long. This usually happens on the first request when building the vector store. Please wait a bit longer or try again.''"

text \<open>The \<open>catch\<close> block of the \<open>/api/chat\<close> handler.\<close>

definition chat_catch :: "handler \<Rightarrow> jserror \<Rightarrow> handler" where
  "chat_catch h error =
     (let isTimeout = (errorMessage error \<noteq> [] \<and> includesStr (errorMessage error) ''timeout'')
      in if \<not> responseSent h
         then sendResponse h (if isTimeout then 408 else 500)
                (Failure (if isTimeout then ''Request Timeout'' else ''Failed to process message'')
                   (if errorMessage error \<noteq> [] then errorMessage error
                    else ''Unknown error occurred''))
         else h)"

definition greetings :: "string list" where
  "greetings = [''hi'', ''hello'', ''hey'', ''greetings'', ''good morning'', ''good afternoon'',
     ''good evening'']"

definition isGreeting :: "string \<Rightarrow> bool" where
  "isGreeting normalizedMessage =
     list_ex (\<lambda>greeting. normalizedMessage = greeting
                \<or> startsWith normalizedMessage (greeting @ '' '')
                \<or> normalizedMessage = greeting @ ''!'') greetings"

definition greetingResponses :: "string list" where
  "greetingResponses =
     [''Hello! I'm here to help you with questions about the documents. What would you like to know?'',
      ''Hi! How can I assist you today? Feel free to ask me anything about the documents.'',
      ''Hello! I can help answer questions based on the documents you've provided. What would you like to know?'',
      ''Hi there! I'm ready to help. What questions do you have about the documents?'']"

definition randomResponse :: "world \<Rightarrow> jsonMessage" where
  "randomResponse w =
     (let i = \<lfloor>random w * real (length greetingResponses)\<rfloor>
      in if 0 \<le> i \<and> nat i < length greetingResponses then Text (greetingResponses ! nat i)
         else Omitted)"

text \<open>
  \<open>simpleResponses[normalizedMessage]\<close>, where it is truthy. The object has six keys of its
  own and inherits those of \<open>Object.prototype\<close>; of these only \<open>constructor\<close> (a
  function) and \<open>__proto__\<close> (an object) are written in lower case.
\<close>

definition simpleResponses :: "string \<Rightarrow> jsonMessage option" where
  "simpleResponses normalizedMessage =
     (case map_of
        [(''how are you'', ''I'm doing well, thank you! I'm here to help you with questions about the documents. What would you like to know?''),
         (''how are you doing'', ''I'm doing great! Ready to help you with any questions about the documents. What can I assist you with?''),
         (''thanks'', ''You're welcome! Is there anything else you'd like to know?''),
         (''thank you'', ''You're welcome! Feel free to ask if you have more questions.''),
         (''bye'', ''Goodbye! Feel free to come back if you have more questions.''),
         (''goodbye'', ''Goodbye! Have a great day!'')] normalizedMessage of
        Some text \<Rightarrow> Some (Text text)
      | None \<Rightarrow>
          if normalizedMessage = ''constructor'' then Some Omitted
          else if normalizedMessage = ''__proto__'' then Some EmptyObject
          else None)"

text \<open>
  The handler from the cache key on: the two races, the reply and the \<open>catch\<close> block.
  The server state returned is the one reached when the work the request started has
  settled, also the build that a timed-out race leaves running.
\<close>

definition isFirstLoad :: "server \<Rightarrow> string list \<Rightarrow> bool" where
  "isFirstLoad srv urlList = (vectorStoreCache srv (join (sort urlList) ''|'') = None)"

definition timeoutMs :: "world \<Rightarrow> server \<Rightarrow> string list \<Rightarrow> nat" where
  "timeoutMs w srv urlList =
     (if isFirstLoad srv urlList then FIRST_LOAD_TIMEOUT_MS else DEFAULT_TIMEOUT_MS w)"

definition graphTimeoutMs :: "world \<Rightarrow> server \<Rightarrow> string list \<Rightarrow> nat" where
  "graphTimeoutMs w srv urlList =
     (if isFirstLoad srv urlList then 60000 else DEFAULT_TIMEOUT_MS w)"

text \<open>
  The first awaited work: \<open>urls.sort().join("|")\<close> has reordered the request's array
  and looked the key up; \<open>getOrCreateVectorStore\<close> is called on the reordered array.
\<close>

definition vectorStoreRace :: "world \<Rightarrow> server \<Rightarrow> string list \<Rightarrow> settled" where
  "vectorStoreRace w srv urlList =
     (let sortedUrls = sort urlList;
          cacheKey = join sortedUrls ''|''
      in getOrCreateVectorStore w (srv\<lparr>effects := effects srv @ [CacheHas cacheKey]\<rparr>) sortedUrls)"

definition chat_pipeline :: "world \<Rightarrow> server \<Rightarrow> handler \<Rightarrow> string list \<Rightarrow> string \<Rightarrow> turn list \<Rightarrow> handler \<times> server" where
  "chat_pipeline w srv h urlList msg history =
     (let g = vectorStoreRace w srv urlList
      in if timeoutMs w srv urlList \<le> elapsed g then (chat_catch h timeoutError, serverAfter g)
         else (case settledWith g of
                 Inl error \<Rightarrow> (chat_catch h error, serverAfter g)
               | Inr vs \<Rightarrow>
                   (let input = invokeInput msg (urlsAfter g) vs history;
                        srv2 = (serverAfter g)\<lparr>effects := effects (serverAfter g) @ [GraphInvoke input]\<rparr>
                    in if graphTimeoutMs w srv urlList \<le> graphTime w
                       then (chat_catch h timeoutError, srv2)
                       else (case outcome (graph_invoke w input) of
                               Inl error \<Rightarrow> (chat_catch h error, srv2)
                             | Inr final \<Rightarrow>
                                 (sendResponse h 200
                                    (ChatReply
                                       (Text (case generatedAnswer final of
                                                None \<Rightarrow> couldNotFind
                                              | Some a \<Rightarrow> if a = [] then couldNotFind else a))
                                       (case documents final of
                                          None \<Rightarrow> []
                                        | Some ds \<Rightarrow> formatDocuments ds)),
                                  srv2)))))"

record chatBody =
  b_urls :: jsval
  b_message :: jsval
  b_conversationHistory :: "turn list option"

definition api_chat :: "world \<Rightarrow> server \<Rightarrow> chatBody \<Rightarrow> handler \<times> server" where
  "api_chat w srv body =
     (let h = \<lparr>responseSent = False, sent = []\<rparr>;
          history = (case b_conversationHistory body of None \<Rightarrow> [] | Some hs \<Rightarrow> hs)
      in case b_urls body of
           JArr urlList \<Rightarrow>
             if length urlList = 0
             then (sendResponse h 400 (BadRequest ''Please provide at least one URL''), srv)
             else if \<not> truthy (b_message body)
             then (sendResponse h 400 (BadRequest ''Please provide a message''), srv)
             else (case b_message body of
                     JStr msg \<Rightarrow>
                       if trim msg = []
                       then (sendResponse h 400 (BadRequest ''Please provide a message''), srv)
                       else if length urlList > 3
                       then (sendResponse h 400
                               (BadRequest ''Too many URLs. Please provide a maximum of 3 URLs at a time.''),
                             srv)
                       else (let normalizedMessage = toLowerCase (trim msg)
                             in if isGreeting normalizedMessage
                                then (sendResponse h 200 (ChatReply (randomResponse w) []), srv)
                                else (case simpleResponses normalizedMessage of
                                        Some reply \<Rightarrow> (sendResponse h 200 (ChatReply reply []), srv)
                                      | None \<Rightarrow> chat_pipeline w srv h urlList msg history))
                   | _ \<Rightarrow> (chat_catch h (Error ''message.trim is not a function''), srv))
         | _ \<Rightarrow> (sendResponse h 400 (BadRequest ''Please provide at least one URL''), srv))"

record queryBody =
  q_urls :: jsval
  q_question :: jsval

definition api_query :: "world \<Rightarrow> server \<Rightarrow> queryBody \<Rightarrow> response \<times> server" where
  "api_query w srv body =
     (case q_urls body of
        JArr urlList \<Rightarrow>
          if length urlList = 0
          then (\<lparr>status = 400, payload = BadRequest ''Please provide at least one URL''\<rparr>, srv)
          else if \<not> truthy (q_question body)
          then (\<lparr>status = 400, payload = BadRequest ''Please provide a question''\<rparr>, srv)
          else (case q_question body of
                  JStr q \<Rightarrow>
                    if trim q = []
                    then (\<lparr>status = 400, payload = BadRequest ''Please provide a question''\<rparr>, srv)
                    else (let g = getOrCreateVectorStore w srv urlList
                          in case settledWith g of
                               Inl error \<Rightarrow>
                                 (\<lparr>status = 500,
                                   payload = Failure ''Failed to process query'' (errorMessage error)\<rparr>,
                                  serverAfter g)
                             | Inr vs \<Rightarrow>
                                 (let input = invokeInput q (urlsAfter g) vs [];
                                      srv2 = (serverAfter g)\<lparr>effects := effects (serverAfter g) @ [GraphInvoke input]\<rparr>
                                  in case outcome (graph_invoke w input) of
                                       Inl error \<Rightarrow>
                                         (\<lparr>status = 500,
                                           payload = Failure ''Failed to process query'' (errorMessage error)\<rparr>,
                                          srv2)
                                     | Inr final \<Rightarrow>
                                         (let formattedDocs =
                                                formatDocuments
                                                  (case documents final of None \<Rightarrow> [] | Some ds \<Rightarrow> ds)
                                          in (\<lparr>status = 200,
                                               payload = QueryReply q formattedDocs (length formattedDocs)
                                                           (generatedAnswer final)\<rparr>,
                                              srv2))))
                | _ \<Rightarrow>
                    (\<lparr>status = 500,
                      payload = Failure ''Failed to process query'' ''question.trim is not a function''\<rparr>,
                     srv))
      | _ \<Rightarrow> (\<lparr>status = 400, payload = BadRequest ''Please provide at least one URL''\<rparr>, srv))"

section \<open>Notions used to state the properties\<close>

text \<open>
  What the loop of \<open>documentGrader\<close> decides for the chunk judged by call \<open>i\<close>, and
  an explicit negative judgment of either grader: the reply \<open>no\<close>, whatever its case
  and the white space around it.
\<close>

definition judgedRelevant :: "world \<Rightarrow> string \<Rightarrow> nat \<Rightarrow> Document \<Rightarrow> bool" where
  "judgedRelevant w q i doc =
     (case docGrader w i q (take 1000 (pageContent doc)) of
        Inr reply \<Rightarrow> includesStr (toLowerCase reply) ''yes''
      | Inl error \<Rightarrow> True)"

text \<open>The chunks that pass the judge, in retrieval order.\<close>

definition passing :: "world \<Rightarrow> string \<Rightarrow> Document list \<Rightarrow> Document list" where
  "passing w q docs =
     map snd (filter (\<lambda>(i, doc). judgedRelevant w q i doc) (zip [0..<length docs] docs))"

text \<open>\<open>state.documents ?? []\<close>, as the nodes read the documents.\<close>

definition docsOf :: "GraphInterface \<Rightarrow> Document list" where
  "docsOf state = (case documents state of None \<Rightarrow> [] | Some ds \<Rightarrow> ds)"

definition explicitNo :: "jserror + string \<Rightarrow> bool" where
  "explicitNo r = (case r of Inr reply \<Rightarrow> trim (toLowerCase reply) = ''no'' | Inl error \<Rightarrow> False)"

text \<open>The cache key of a URL array: \<open>urls.sort().join("|")\<close>.\<close>

definition cacheKeyOf :: "string list \<Rightarrow> string" where
  "cacheKeyOf urlList = join (sort urlList) ''|''"

definition newEffects :: "server \<Rightarrow> server \<Rightarrow> effect list" where
  "newEffects before after = drop (length (effects before)) (effects after)"

definition statuses :: "handler \<Rightarrow> nat list" where
  "statuses h = map status (sent h)"

definition freshHandler :: handler where
  "freshHandler = \<lparr>responseSent = False, sent = []\<rparr>"

section \<open>Concrete inputs\<close>

text \<open>
  A world in which every service answers at once and favourably, and variations of it:
  a relevance judge that reads its replies from a list, an answer grader and a generator
  with a fixed reply, a vector store holding given chunks, a build that fails.
\<close>

definition quietWorld :: world where
  "quietWorld =
     \<lparr>docGrader = (\<lambda>i q d. Inr ''yes''),
      graderChain = (\<lambda>q a. Inr ''yes''),
      ragChain = (\<lambda>h c q. Inr ''It is about examples.''),
      retriever = (\<lambda>vs k q. Inr []),
      retrieveDoc = (\<lambda>us q. Inr []),
      buildResult = (\<lambda>n us. None),
      buildTime = (\<lambda>n us. 1000),
      graphTime = 1000,
      production = False,
      random = 1 / 2\<rparr>"

definition judgeReplies :: "(jserror + string) list \<Rightarrow> world" where
  "judgeReplies rs = quietWorld\<lparr>docGrader := (\<lambda>i q d. if i < length rs then rs ! i else Inr ''yes'')\<rparr>"

definition answerGraderReplies :: "jserror + string \<Rightarrow> world" where
  "answerGraderReplies r = quietWorld\<lparr>graderChain := (\<lambda>q a. r)\<rparr>"

definition generatorReplies :: "string \<Rightarrow> world \<Rightarrow> world" where
  "generatorReplies r w = w\<lparr>ragChain := (\<lambda>h c q. Inr r)\<rparr>"

definition storeHolds :: "Document list \<Rightarrow> world \<Rightarrow> world" where
  "storeHolds ds w = w\<lparr>retriever := (\<lambda>vs k q. Inr (take k ds))\<rparr>"

definition buildFailsWith :: "string \<Rightarrow> world" where
  "buildFailsWith m = quietWorld\<lparr>buildResult := (\<lambda>n us. Some (Error m))\<rparr>"

definition buildTakes :: "nat \<Rightarrow> world \<Rightarrow> world" where
  "buildTakes ms w = w\<lparr>buildTime := (\<lambda>n us. ms)\<rparr>"

definition fourUrls :: "string list" where
  "fourUrls = [''https://example.com/d'', ''https://example.com/c'', ''https://example.com/b'',
     ''https://example.com/a'']"

definition docA :: Document where
  "docA = \<lparr>pageContent = ''Alpha is the first letter.'', metadata = ''https://example.com/a''\<rparr>"

definition docB :: Document where
  "docB = \<lparr>pageContent = ''Beta is the second letter.'', metadata = ''https://example.com/b''\<rparr>"

definition stateWith :: "Document list \<Rightarrow> string option \<Rightarrow> GraphInterface" where
  "stateWith ds answer =
     \<lparr>question = ''What is this about?'', urls = Some [''https://example.com/a''],
      generatedAnswer = answer, documents = Some ds, model = Some createModel,
      conversationHistory = Some [], vectorStore = Some 0\<rparr>"

definition chatRequest :: "string list \<Rightarrow> string \<Rightarrow> chatBody" where
  "chatRequest us m = \<lparr>b_urls = JArr us, b_message = JStr m, b_conversationHistory = None\<rparr>"

definition queryRequest :: "string list \<Rightarrow> string \<Rightarrow> queryBody" where
  "queryRequest us q = \<lparr>q_urls = JArr us, q_question = JStr q\<rparr>"

section \<open>The relevance grader\<close>

lemmas js_string = toLowerCase_def toLowerChar_def trim_def isWhiteSpace_def char_of_def
  bit_Suc_0_iff

lemmas fixtures = quietWorld_def judgeReplies_def answerGraderReplies_def storeHolds_def
  generatorReplies_def buildFailsWith_def buildTakes_def fourUrls_def docA_def docB_def stateWith_def chatRequest_def queryRequest_def

lemma gradeLoop_filter:
  "gradeLoop w q i docs acc =
     acc @ map snd (filter (\<lambda>(j, doc). judgedRelevant w q j doc) (zip [i..<i + length docs] docs))"
proof (induction docs arbitrary: i acc)
  case Nil
  then show ?case by simp
next
  case (Cons doc docs)
  have "i < i + length (doc # docs)" by simp
  then have "[i..<i + length (doc # docs)] = i # [Suc i..<i + length (doc # docs)]"
    by (rule upt_conv_Cons)
  moreover have "i + length (doc # docs) = Suc i + length docs" by simp
  ultimately have range: "[i..<i + length (doc # docs)] = i # [Suc i..<Suc i + length docs]"
    by simp
  show ?case
    unfolding range
    by (simp add: Cons.IH judgedRelevant_def split: sum.splits)
qed

lemma u_documents_documentGrader:
  "u_documents (documentGrader w state) =
     Some (let docs = (case documents state of None \<Rightarrow> [] | Some ds \<Rightarrow> ds);
               kept = passing w (question state) docs
           in if length kept = 0 \<and> length docs > 0 then kept @ take (min 3 (length docs)) docs else kept)"
  by (simp add: documentGrader_def Let_def gradeLoop_filter passing_def)

lemma passing_empty_iff:
  "passing w q docs = [] \<longleftrightarrow> (\<forall>i < length docs. \<not> judgedRelevant w q i (docs ! i))"
proof -
  have "passing w q docs = [] \<longleftrightarrow>
        (\<forall>p \<in> set (zip [0..<length docs] docs). \<not> (case p of (i, doc) \<Rightarrow> judgedRelevant w q i doc))"
    by (simp add: passing_def filter_empty_conv)
  also have "\<dots> \<longleftrightarrow> (\<forall>i < length docs. \<not> judgedRelevant w q i (docs ! i))"
  proof
    assume h: "\<forall>p \<in> set (zip [0..<length docs] docs). \<not> (case p of (i, doc) \<Rightarrow> judgedRelevant w q i doc)"
    show "\<forall>i < length docs. \<not> judgedRelevant w q i (docs ! i)"
    proof (intro allI impI)
      fix i assume "i < length docs"
      then have "(i, docs ! i) \<in> set (zip [0..<length docs] docs)"
        by (force simp: set_zip)
      with h show "\<not> judgedRelevant w q i (docs ! i)" by blast
    qed
  next
    assume "\<forall>i < length docs. \<not> judgedRelevant w q i (docs ! i)"
    then show "\<forall>p \<in> set (zip [0..<length docs] docs). \<not> (case p of (i, doc) \<Rightarrow> judgedRelevant w q i doc)"
      by (auto simp: set_zip)
  qed
  finally show ?thesis .
qed

text \<open>
  Claim C2 says that the relevance grader drops a chunk only on an explicit negative
  judgment. The loop tests the reply for \<open>yes\<close>, so a reply that is neither is dropped
  too: with the replies \<open>yes\<close> and \<open>maybe\<close> for two chunks, the second chunk is gone
  although \<open>maybe\<close> is no explicit negative.
\<close>

theorem documentGrader_excludes_maybe:
  "\<not> explicitNo (Inr ''maybe'') \<and>
   u_documents (documentGrader (judgeReplies [Inr ''yes'', Inr ''maybe''])
      (stateWith [docA, docB] None)) = Some [docA]"
  by (simp add: explicitNo_def documentGrader_def fixtures js_string spread_def Let_def)

text \<open>
  Claim C2, amended: the documents the relevance grader returns are the chunks whose
  judge call failed or whose reply, in lower case, contains \<open>yes\<close>, in retrieval order;
  every other reply drops the chunk. Only when no chunk is kept that way are the first
  three chunks returned instead.
\<close>

theorem documentGrader_filter:
  "u_documents (documentGrader w state) =
     Some (let docs = (case documents state of None \<Rightarrow> [] | Some ds \<Rightarrow> ds);
               kept = passing w (question state) docs
           in if kept = [] then take 3 docs else kept)"
  by (simp add: u_documents_documentGrader Let_def min_def)

theorem documentGrader_filter_witness:
  "u_documents (documentGrader
      (judgeReplies [Inr ''Yes.'', Inr ''no'', Inl (Error ''rate limit''), Inr ''maybe''])
      (stateWith [docA, docB, docB, docA] None)) = Some [docA, docB]"
  using documentGrader_filter
    [of "judgeReplies [Inr ''Yes.'', Inr ''no'', Inl (Error ''rate limit''), Inr ''maybe'']"
        "stateWith [docA, docB, docB, docA] None"]
  by (simp add: passing_def judgedRelevant_def fixtures js_string upt_conv_Cons)

text \<open>
  Claim C6: on a non-empty chunk list the relevance grader returns a non-empty list, and
  when no chunk passes the judge it returns exactly the first \<open>min 3 (length docs)\<close>
  chunks, in retrieval order.
\<close>

theorem documentGrader_never_empties:
  assumes "documents state = Some docs" and "docs \<noteq> []"
  shows "\<exists>kept. u_documents (documentGrader w state) = Some kept \<and> kept \<noteq> [] \<and>
           ((\<forall>i < length docs. \<not> judgedRelevant w (question state) i (docs ! i)) \<longrightarrow>
              kept = take (min 3 (length docs)) docs)"
proof (cases "passing w (question state) docs = []")
  case True
  with assms have "u_documents (documentGrader w state) = Some (take (min 3 (length docs)) docs)"
    by (simp add: u_documents_documentGrader)
  moreover from assms(2) have "take (min 3 (length docs)) docs \<noteq> []"
    by (cases docs) simp_all
  ultimately show ?thesis by simp
next
  case False
  with assms have "u_documents (documentGrader w state) = Some (passing w (question state) docs)"
    by (simp add: u_documents_documentGrader)
  with False show ?thesis
    by (auto simp: passing_empty_iff)
qed

theorem documentGrader_never_empties_witness:
  "u_documents (documentGrader
      (judgeReplies [Inr ''no'', Inr ''No'', Inr ''no'', Inr ''irrelevant''])
      (stateWith [docA, docB, docB, docA] None)) = Some [docA, docB, docB]"
proof -
  let ?w = "judgeReplies [Inr ''no'', Inr ''No'', Inr ''no'', Inr ''irrelevant'']"
  let ?st = "stateWith [docA, docB, docB, docA] None"
  have docs: "documents ?st = Some [docA, docB, docB, docA]" "[docA, docB, docB, docA] \<noteq> []"
    by (simp_all add: stateWith_def)
  have none: "\<forall>i < length [docA, docB, docB, docA].
      \<not> judgedRelevant ?w (question ?st) i ([docA, docB, docB, docA] ! i)"
    by (simp add: judgedRelevant_def fixtures js_string less_Suc_eq)
  from documentGrader_never_empties [OF docs, of ?w] none show ?thesis
    by auto
qed

section \<open>The answer grader\<close>

lemma trim_Nil: "trim [] = []"
  by (simp add: trim_def)

text \<open>
  Claim C4 says that a blank answer makes the answer grader produce a state whose
  \<open>generatedAnswer\<close> is the fixed message. The grader does skip the judge, but it
  returns the message under the key \<open>gradeGeneratedAnswer\<close>: the object it returns has
  no \<open>generatedAnswer\<close>, and the state keeps the blank answer. So does the final state
  of a run whose generator replied with white space.
\<close>

theorem gradeGeneratedAnswer_blank_writes_other_key:
  "u_generatedAnswer (gradeGeneratedAnswer quietWorld (stateWith [docA] (Some ''''))) = None \<and>
   u_gradeGeneratedAnswer (gradeGeneratedAnswer quietWorld (stateWith [docA] (Some ''''))) = Some couldNotFind \<and>
   generatedAnswer (GraphState (stateWith [docA] (Some ''''))
      (gradeGeneratedAnswer quietWorld (stateWith [docA] (Some '''')))) = Some '''' \<and>
   outcome (graph_invoke (generatorReplies ''   '' (storeHolds [docA] quietWorld))
      (invokeInput ''What is this about?'' [''https://example.com/a''] 0 [])) =
     Inr \<lparr>question = ''What is this about?'', urls = Some [''https://example.com/a''],
          generatedAnswer = Some ''   '', documents = Some [docA], model = Some createModel,
          conversationHistory = Some [], vectorStore = Some 0\<rparr>"
  by (simp add: gradeGeneratedAnswer_def GraphState_def noKeys_def fixtures js_string
      graph_invoke_def gradedState_def retrieveDocNode_def createModelNode_def documentGrader_def
      hasRelevantDocs_def generateAnswer_def invokeInput_def channelDefaults_def spread_def
      Let_def)

text \<open>
  Claim C5: for every non-empty answer, that is, every answer that is not blank (an
  empty or white-space answer never reaches the judge), the answer grader never drops
  the answer. On an explicit negative judgment its output is the state with the note
  appended to the answer; on any other reply, and when the judge fails, it is the state
  unchanged. The same holds of the state after the write.
\<close>

theorem gradeGeneratedAnswer_keeps_answer:
  assumes "generatedAnswer state = Some a" and "trim a \<noteq> []"
  shows "gradeGeneratedAnswer w state =
           (spread state)\<lparr>u_generatedAnswer :=
              Some (if explicitNo (graderChain w (question state) a) then a @ incompleteNote else a)\<rparr>
         \<and> generatedAnswer (GraphState state (gradeGeneratedAnswer w state)) =
              Some (if explicitNo (graderChain w (question state) a) then a @ incompleteNote else a)"
proof -
  from assms(2) have ne: "a \<noteq> []"
    using trim_Nil by auto
  have same: "(spread state)\<lparr>u_generatedAnswer := Some a\<rparr> = spread state"
    using assms(1) by (simp add: spread_def)
  have upd: "gradeGeneratedAnswer w state =
           (spread state)\<lparr>u_generatedAnswer :=
              Some (if explicitNo (graderChain w (question state) a) then a @ incompleteNote else a)\<rparr>"
    using assms ne same
    by (simp add: gradeGeneratedAnswer_def explicitNo_def split: sum.splits)
  show ?thesis
    unfolding upd using ne by (simp add: GraphState_def spread_def)
qed

theorem gradeGeneratedAnswer_keeps_answer_witness:
  "u_generatedAnswer (gradeGeneratedAnswer (answerGraderReplies (Inr '' No ''))
      (stateWith [docA] (Some ''It is about letters.''))) =
     Some ''It is about letters. (Note: This information may be incomplete based on available documents.)''"
proof -
  let ?w = "answerGraderReplies (Inr '' No '')"
  let ?st = "stateWith [docA] (Some ''It is about letters.'')"
  have h: "generatedAnswer ?st = Some ''It is about letters.''" "trim ''It is about letters.'' \<noteq> []"
    by (simp_all add: stateWith_def js_string)
  have no: "explicitNo (graderChain ?w (question ?st) ''It is about letters.'')"
    by (simp add: explicitNo_def fixtures js_string)
  from gradeGeneratedAnswer_keeps_answer [OF h, of ?w] no show ?thesis
    by (simp add: incompleteNote_def)
qed

section \<open>The graph\<close>

lemma hasRelevantDocs_yes: "hasRelevantDocs s = ''yes'' \<longleftrightarrow> docsOf s \<noteq> []"
  by (simp add: hasRelevantDocs_def docsOf_def Let_def)

lemma generatedAnswer_GraphState:
  "generatedAnswer (GraphState x y) =
     (case u_generatedAnswer y of
        None \<Rightarrow> generatedAnswer x
      | Some v \<Rightarrow> if v = [] then generatedAnswer x else Some v)"
  by (simp add: GraphState_def)

lemma documents_GraphState:
  "documents (GraphState x y) = (case u_documents y of None \<Rightarrow> documents x | Some v \<Rightarrow> Some v)"
  by (simp add: GraphState_def)

lemma retrieveDocNode_answer:
  "retrieveDocNode w s = Inr u \<Longrightarrow> u_generatedAnswer u = None"
  by (auto simp: retrieveDocNode_def noKeys_def Let_def split: option.splits sum.splits)

lemma createModelNode_answer: "u_generatedAnswer (createModelNode s) = None"
  by (simp add: createModelNode_def noKeys_def)

lemma documentGrader_answer: "u_generatedAnswer (documentGrader w s) = generatedAnswer s"
  by (simp add: documentGrader_def spread_def Let_def)

lemma gradedState_Inr:
  assumes "gradedState w input = Inr s"
  obtains u1 where "retrieveDocNode w (GraphState channelDefaults input) = Inr u1"
    and "s = GraphState (GraphState (GraphState (GraphState channelDefaults input) u1)
                 (createModelNode (GraphState (GraphState channelDefaults input) u1)))
               (documentGrader w (GraphState (GraphState (GraphState channelDefaults input) u1)
                 (createModelNode (GraphState (GraphState channelDefaults input) u1))))"
  using assms by (auto simp: gradedState_def Let_def split: sum.splits)

lemma generatedAnswer_gradedState:
  assumes "u_generatedAnswer input = None" and "gradedState w input = Inr s"
  shows "generatedAnswer s = Some []"
proof -
  from assms(2) obtain u1 where u1: "retrieveDocNode w (GraphState channelDefaults input) = Inr u1"
    and s: "s = GraphState (GraphState (GraphState (GraphState channelDefaults input) u1)
                 (createModelNode (GraphState (GraphState channelDefaults input) u1)))
               (documentGrader w (GraphState (GraphState (GraphState channelDefaults input) u1)
                 (createModelNode (GraphState (GraphState channelDefaults input) u1))))"
    by (rule gradedState_Inr)
  have s0: "generatedAnswer (GraphState channelDefaults input) = Some []"
    using assms(1) by (simp add: generatedAnswer_GraphState channelDefaults_def)
  have s1: "generatedAnswer (GraphState (GraphState channelDefaults input) u1) = Some []"
    using s0 retrieveDocNode_answer [OF u1] by (simp add: generatedAnswer_GraphState)
  show ?thesis
    unfolding s
    using s1 by (simp add: generatedAnswer_GraphState createModelNode_answer documentGrader_answer)
qed

lemma documents_gradedState:
  assumes "gradedState w input = Inr s"
  shows "documents s = Some (docsOf s)"
proof -
  from assms obtain u1 where
    s: "s = GraphState (GraphState (GraphState (GraphState channelDefaults input) u1)
                 (createModelNode (GraphState (GraphState channelDefaults input) u1)))
               (documentGrader w (GraphState (GraphState (GraphState channelDefaults input) u1)
                 (createModelNode (GraphState (GraphState channelDefaults input) u1))))"
    by (rule gradedState_Inr)
  obtain ds where "u_documents (documentGrader w (GraphState (GraphState (GraphState channelDefaults input) u1)
                 (createModelNode (GraphState (GraphState channelDefaults input) u1)))) = Some ds"
    by (simp add: documentGrader_def Let_def)
  then show ?thesis
    unfolding s docsOf_def by (simp add: documents_GraphState)
qed

text \<open>
  Claim C7: a run enters \<open>generate_answer\<close> exactly when the graded state holds
  documents. When it holds none, the run ends after \<open>grade_documents\<close> with that state
  as its result: no generated answer (the channel's default, the empty string) and an
  empty documents list. The input carries no \<open>generatedAnswer\<close>, as with both
  handlers.
\<close>

theorem generator_needs_documents:
  assumes "u_generatedAnswer input = None"
  shows "(''generate_answer'' \<in> set (visited (graph_invoke w input))) =
           (\<exists>s. gradedState w input = Inr s \<and> docsOf s \<noteq> [])
         \<and> (\<forall>s. gradedState w input = Inr s \<and> docsOf s = [] \<longrightarrow>
               graph_invoke w input =
                 \<lparr>visited = [''retrieve_documents'', ''create_model'', ''grade_documents''],
                  outcome = Inr s\<rparr>
               \<and> generatedAnswer s = Some [] \<and> documents s = Some [])"
proof (cases "gradedState w input")
  case (Inl error)
  then show ?thesis by (simp add: graph_invoke_def)
next
  case (Inr s)
  show ?thesis
  proof (cases "docsOf s = []")
    case True
    with Inr have "graph_invoke w input =
        \<lparr>visited = [''retrieve_documents'', ''create_model'', ''grade_documents''], outcome = Inr s\<rparr>"
      by (simp add: graph_invoke_def hasRelevantDocs_yes)
    moreover have "generatedAnswer s = Some []"
      using assms Inr by (rule generatedAnswer_gradedState)
    moreover have "documents s = Some []"
      using documents_gradedState [OF Inr] True by simp
    ultimately show ?thesis using Inr True by simp
  next
    case False
    with Inr have "''generate_answer'' \<in> set (visited (graph_invoke w input))"
      by (simp add: graph_invoke_def hasRelevantDocs_yes Let_def split: sum.splits)
    with Inr False show ?thesis by simp
  qed
qed

theorem generator_needs_documents_witness:
  "''generate_answer'' \<notin> set (visited (graph_invoke quietWorld
       (invokeInput ''What is this about?'' [''https://example.com/a''] 0 [])))
   \<and> ''generate_answer'' \<in> set (visited (graph_invoke (storeHolds [docA] quietWorld)
       (invokeInput ''What is this about?'' [''https://example.com/a''] 0 [])))"
proof -
  let ?input = "invokeInput ''What is this about?'' [''https://example.com/a''] 0 []"
  have h: "u_generatedAnswer ?input = None"
    by (simp add: invokeInput_def noKeys_def)
  have empty: "\<not> (\<exists>s. gradedState quietWorld ?input = Inr s \<and> docsOf s \<noteq> [])"
    by (simp add: gradedState_def retrieveDocNode_def createModelNode_def documentGrader_def
        GraphState_def channelDefaults_def invokeInput_def noKeys_def spread_def docsOf_def
        quietWorld_def Let_def)
  have full: "\<exists>s. gradedState (storeHolds [docA] quietWorld) ?input = Inr s \<and> docsOf s \<noteq> []"
    by (simp add: gradedState_def retrieveDocNode_def createModelNode_def documentGrader_def
        GraphState_def channelDefaults_def invokeInput_def noKeys_def spread_def docsOf_def
        fixtures js_string Let_def)
  from generator_needs_documents [OF h, of quietWorld] empty
       generator_needs_documents [OF h, of "storeHolds [docA] quietWorld"] full
  show ?thesis by blast
qed

section \<open>The index cache\<close>

lemmas graph_defs = graph_invoke_def gradedState_def retrieveDocNode_def createModelNode_def
  documentGrader_def hasRelevantDocs_def generateAnswer_def gradeGeneratedAnswer_def
  invokeInput_def channelDefaults_def spread_def noKeys_def GraphState_def

lemmas store_defs = getOrCreateVectorStore_def getOrCreateVectorStore_begin_def
  getOrCreateVectorStore_resume_def buildCount_def coldServer_def

lemma getOrCreateVectorStore_hit:
  assumes "vectorStoreCache srv (cacheKeyOf urlList) = Some vs"
  shows "getOrCreateVectorStore w srv urlList =
           \<lparr>serverAfter = srv\<lparr>effects := effects srv @ [CacheHas (cacheKeyOf urlList)]\<rparr>,
            urlsAfter = sort urlList, settledWith = Inr vs, elapsed = 0\<rparr>"
  using assms
  by (simp add: getOrCreateVectorStore_def getOrCreateVectorStore_begin_def cacheKeyOf_def Let_def)

lemma getOrCreateVectorStore_miss:
  assumes "vectorStoreCache srv (cacheKeyOf urlList) = None"
  shows "getOrCreateVectorStore w srv urlList =
           (case buildResult w (buildCount srv) (sort urlList) of
              Some error \<Rightarrow>
                \<lparr>serverAfter = srv\<lparr>effects := effects srv @ [CacheHas (cacheKeyOf urlList),
                                   BuildVectorStore (sort urlList)]\<rparr>,
                 urlsAfter = sort urlList, settledWith = Inl error,
                 elapsed = buildTime w (buildCount srv) (sort urlList)\<rparr>
            | None \<Rightarrow>
                \<lparr>serverAfter = srv\<lparr>effects := effects srv @ [CacheHas (cacheKeyOf urlList),
                                   BuildVectorStore (sort urlList)],
                                 vectorStoreCache := (vectorStoreCache srv)(cacheKeyOf urlList \<mapsto> buildCount srv)\<rparr>,
                 urlsAfter = sort urlList, settledWith = Inr (buildCount srv),
                 elapsed = buildTime w (buildCount srv) (sort urlList)\<rparr>)"
  using assms
  by (simp add: getOrCreateVectorStore_def getOrCreateVectorStore_begin_def
      getOrCreateVectorStore_resume_def cacheKeyOf_def Let_def split: option.splits)

lemma callsInTurn_Cons:
  "fst (callsInTurn w srv (us # rest)) =
     fst (callsInTurn w (serverAfter (getOrCreateVectorStore w srv us)) rest)"
  "snd (callsInTurn w srv (us # rest)) =
     settledWith (getOrCreateVectorStore w srv us)
       # snd (callsInTurn w (serverAfter (getOrCreateVectorStore w srv us)) rest)"
  by (simp_all add: Let_def case_prod_beta)

lemma callsInTurn_hits:
  assumes "\<forall>us \<in> set uss. cacheKeyOf us = k" and "vectorStoreCache srv k = Some vs"
  shows "buildCount (fst (callsInTurn w srv uss)) = buildCount srv
         \<and> snd (callsInTurn w srv uss) = replicate (length uss) (Inr vs)"
  using assms
proof (induction uss arbitrary: srv)
  case Nil
  then show ?case by simp
next
  case (Cons us uss)
  let ?srv1 = "srv\<lparr>effects := effects srv @ [CacheHas (cacheKeyOf us)]\<rparr>"
  from Cons.prems have hit: "vectorStoreCache srv (cacheKeyOf us) = Some vs"
    by simp
  have g: "getOrCreateVectorStore w srv us =
      \<lparr>serverAfter = ?srv1, urlsAfter = sort us, settledWith = Inr vs, elapsed = 0\<rparr>"
    by (rule getOrCreateVectorStore_hit [OF hit])
  have "vectorStoreCache ?srv1 k = Some vs"
    using Cons.prems by simp
  moreover have "\<forall>us \<in> set uss. cacheKeyOf us = k"
    using Cons.prems by simp
  ultimately have ih: "buildCount (fst (callsInTurn w ?srv1 uss)) = buildCount ?srv1
      \<and> snd (callsInTurn w ?srv1 uss) = replicate (length uss) (Inr vs)"
    using Cons.IH by blast
  have "buildCount ?srv1 = buildCount srv"
    by (simp add: buildCount_def)
  with ih show ?case
    by (simp add: callsInTurn_Cons g del: callsInTurn.simps)
qed

text \<open>
  Claim C1 says that calls of \<open>getOrCreateVectorStore\<close> that overlap on one key start
  exactly one build and all receive the same index. The function looks the key up, and
  on a miss starts a build and writes the cache only when the build is done; nothing
  marks a build in flight. Two calls for one URL on a cold cache, both made before either
  build resolves, start two builds and return two different stores.
\<close>

theorem overlapping_calls_build_twice:
  "buildCount (shared (runEvents coldServer
      [Call [''https://example.com/a''], Call [''https://example.com/a''],
       BuildResolves 0, BuildResolves 1])) = 2
   \<and> callers (runEvents coldServer
      [Call [''https://example.com/a''], Call [''https://example.com/a''],
       BuildResolves 0, BuildResolves 1]) = [Fulfilled 0, Fulfilled 1]"
  by (simp add: runEvents_def store_defs Let_def)

text \<open>
  Claim C1, amended: calls for the same key that are made in turn, each awaited before
  the next is made, on a cache without that key and with the first build succeeding,
  start exactly one build, and every caller receives the store of that build.
\<close>

theorem calls_in_turn_build_once:
  assumes "\<forall>us \<in> set (urlList # rest). cacheKeyOf us = k"
    and "vectorStoreCache srv k = None"
    and "buildResult w (buildCount srv) (sort urlList) = None"
  shows "buildCount (fst (callsInTurn w srv (urlList # rest))) = Suc (buildCount srv)
         \<and> snd (callsInTurn w srv (urlList # rest)) =
             replicate (Suc (length rest)) (Inr (buildCount srv))"
proof -
  let ?srv1 = "srv\<lparr>effects := effects srv @ [CacheHas (cacheKeyOf urlList), BuildVectorStore (sort urlList)],
                   vectorStoreCache := (vectorStoreCache srv)(cacheKeyOf urlList \<mapsto> buildCount srv)\<rparr>"
  from assms(1) have k: "cacheKeyOf urlList = k" by simp
  have g: "getOrCreateVectorStore w srv urlList =
      \<lparr>serverAfter = ?srv1, urlsAfter = sort urlList, settledWith = Inr (buildCount srv),
        elapsed = buildTime w (buildCount srv) (sort urlList)\<rparr>"
    using getOrCreateVectorStore_miss [of srv urlList w] assms(2,3) k by simp
  have "vectorStoreCache ?srv1 k = Some (buildCount srv)"
    using k by simp
  moreover have "\<forall>us \<in> set rest. cacheKeyOf us = k"
    using assms(1) by simp
  ultimately have rest: "buildCount (fst (callsInTurn w ?srv1 rest)) = buildCount ?srv1
      \<and> snd (callsInTurn w ?srv1 rest) = replicate (length rest) (Inr (buildCount srv))"
    by (rule callsInTurn_hits [rotated])
  have "buildCount ?srv1 = Suc (buildCount srv)"
    by (simp add: buildCount_def)
  with rest show ?thesis
    by (simp add: callsInTurn_Cons g del: callsInTurn.simps)
qed

theorem calls_in_turn_build_once_witness:
  "buildCount (fst (callsInTurn quietWorld coldServer
      [[''https://example.com/b'', ''https://example.com/a''],
       [''https://example.com/a'', ''https://example.com/b''],
       [''https://example.com/b'', ''https://example.com/a'']])) = 1
   \<and> snd (callsInTurn quietWorld coldServer
      [[''https://example.com/b'', ''https://example.com/a''],
       [''https://example.com/a'', ''https://example.com/b''],
       [''https://example.com/b'', ''https://example.com/a'']]) = [Inr 0, Inr 0, Inr 0]"
proof -
  let ?ba = "[''https://example.com/b'', ''https://example.com/a'']"
  let ?ab = "[''https://example.com/a'', ''https://example.com/b'']"
  have keys: "\<forall>us \<in> set (?ba # [?ab, ?ba]). cacheKeyOf us = ''https://example.com/a|https://example.com/b''"
    by (simp add: cacheKeyOf_def)
  have cold: "vectorStoreCache coldServer ''https://example.com/a|https://example.com/b'' = None"
    by (simp add: coldServer_def)
  have ok: "buildResult quietWorld (buildCount coldServer) (sort ?ba) = None"
    by (simp add: quietWorld_def)
  have "buildCount coldServer = 0"
    by (simp add: buildCount_def coldServer_def)
  with calls_in_turn_build_once [OF keys cold ok] show ?thesis
    by (simp add: numeral_3_eq_3)
qed

section \<open>The handlers\<close>

text \<open>
  Claim C3 says that \<open>/query\<close> answers 400 to more than three URLs. The handler has no
  such check: four URLs and a question run the pipeline and are answered with 200, where
  \<open>/chat\<close> answers the same URLs with 400.
\<close>

theorem query_accepts_four_urls:
  "status (fst (api_query quietWorld coldServer (queryRequest fourUrls ''What is this about?''))) = 200
   \<and> statuses (fst (api_chat quietWorld coldServer (chatRequest fourUrls ''What is this about?''))) = [400]"
  by (simp add: api_query_def api_chat_def statuses_def sendResponse_def fixtures js_string
      graph_defs store_defs formatDocuments_def Let_def)

lemma randomResponse_canned:
  assumes "0 \<le> random w" and "random w < 1"
  shows "\<exists>text \<in> set greetingResponses. randomResponse w = Text text"
proof -
  have len: "length greetingResponses = 4"
    by (simp add: greetingResponses_def)
  from assms have "0 \<le> \<lfloor>random w * 4\<rfloor>" and "\<lfloor>random w * 4\<rfloor> < 4"
    by (simp_all add: floor_less_iff)
  then have "nat \<lfloor>random w * 4\<rfloor> < 4"
    by linarith
  with \<open>0 \<le> \<lfloor>random w * 4\<rfloor>\<close>
  have "randomResponse w = Text (greetingResponses ! nat \<lfloor>random w * 4\<rfloor>)"
    and "nat \<lfloor>random w * 4\<rfloor> < length greetingResponses"
    by (simp_all add: randomResponse_def len Let_def)
  then show ?thesis
    using nth_mem by blast
qed

lemma normalized_greetings:
  "isGreeting (toLowerCase (trim ''hi''))" "trim ''hi'' \<noteq> []"
  "isGreeting (toLowerCase (trim ''Hello!''))" "trim ''Hello!'' \<noteq> []"
  "isGreeting (toLowerCase (trim ''hey there''))" "trim ''hey there'' \<noteq> []"
  "\<not> isGreeting (toLowerCase (trim ''hi-5''))" "trim ''hi-5'' \<noteq> []"
  "simpleResponses (toLowerCase (trim ''hi-5'')) = None"
  by (simp_all add: isGreeting_def greetings_def simpleResponses_def js_string)

lemma api_chat_greeting:
  assumes "urlList \<noteq> []" and "length urlList \<le> 3"
    and "trim m \<noteq> []" and "isGreeting (toLowerCase (trim m))"
  shows "api_chat w srv \<lparr>b_urls = JArr urlList, b_message = JStr m, b_conversationHistory = history\<rparr> =
           (\<lparr>responseSent = True, sent = [\<lparr>status = 200, payload = ChatReply (randomResponse w) []\<rparr>]\<rparr>, srv)"
proof -
  from assms(3) have "m \<noteq> []" by (auto simp: trim_def)
  with assms show ?thesis
    by (simp add: api_chat_def sendResponse_def Let_def)
qed

lemma sort_sort: "sort (sort xs) = sort (xs :: string list)"
  by (simp add: sorted_sort_id)

lemma effects_vectorStoreRace:
  "\<exists>more. effects (serverAfter (vectorStoreRace w srv urlList)) =
      effects srv @ CacheHas (cacheKeyOf urlList) # CacheHas (cacheKeyOf urlList) # more
    \<and> (\<forall>e \<in> set more. e = BuildVectorStore (sort urlList))"
  by (simp add: vectorStoreRace_def getOrCreateVectorStore_def getOrCreateVectorStore_begin_def
      getOrCreateVectorStore_resume_def cacheKeyOf_def sort_sort Let_def split: option.splits)

lemma urlsAfter_vectorStoreRace: "urlsAfter (vectorStoreRace w srv urlList) = sort urlList"
  by (simp add: vectorStoreRace_def getOrCreateVectorStore_def getOrCreateVectorStore_begin_def
      sort_sort Let_def split: option.splits)

lemma effects_chat_pipeline:
  "\<exists>more. effects (snd (chat_pipeline w srv h urlList msg history)) =
      effects srv @ CacheHas (cacheKeyOf urlList) # CacheHas (cacheKeyOf urlList) # more
    \<and> (\<forall>e \<in> set more. e = BuildVectorStore (sort urlList)
          \<or> (\<exists>vs. e = GraphInvoke (invokeInput msg (sort urlList) vs history)))"
proof -
  obtain more where more:
    "effects (serverAfter (vectorStoreRace w srv urlList)) =
       effects srv @ CacheHas (cacheKeyOf urlList) # CacheHas (cacheKeyOf urlList) # more"
    "\<forall>e \<in> set more. e = BuildVectorStore (sort urlList)"
    using effects_vectorStoreRace by blast
  show ?thesis
  proof (cases "\<exists>vs. snd (chat_pipeline w srv h urlList msg history) =
      (serverAfter (vectorStoreRace w srv urlList))\<lparr>effects := effects (serverAfter (vectorStoreRace w srv urlList))
         @ [GraphInvoke (invokeInput msg (sort urlList) vs history)]\<rparr>")
    case True
    then obtain vs where "snd (chat_pipeline w srv h urlList msg history) =
      (serverAfter (vectorStoreRace w srv urlList))\<lparr>effects := effects (serverAfter (vectorStoreRace w srv urlList))
         @ [GraphInvoke (invokeInput msg (sort urlList) vs history)]\<rparr>" by blast
    with more have "effects (snd (chat_pipeline w srv h urlList msg history)) =
      effects srv @ CacheHas (cacheKeyOf urlList) # CacheHas (cacheKeyOf urlList)
        # (more @ [GraphInvoke (invokeInput msg (sort urlList) vs history)])"
      by simp
    moreover have "\<forall>e \<in> set (more @ [GraphInvoke (invokeInput msg (sort urlList) vs history)]).
        e = BuildVectorStore (sort urlList)
          \<or> (\<exists>vs. e = GraphInvoke (invokeInput msg (sort urlList) vs history))"
      using more(2) by auto
    ultimately show ?thesis by blast
  next
    case False
    then have "snd (chat_pipeline w srv h urlList msg history) = serverAfter (vectorStoreRace w srv urlList)"
      by (auto simp: chat_pipeline_def Let_def urlsAfter_vectorStoreRace split: sum.splits if_splits)
    with more show ?thesis by auto
  qed
qed

lemma api_chat_no_shortcut:
  assumes "urlList \<noteq> []" and "length urlList \<le> 3"
    and "trim m \<noteq> []" and "\<not> isGreeting (toLowerCase (trim m))"
    and "simpleResponses (toLowerCase (trim m)) = None"
  shows "api_chat w srv \<lparr>b_urls = JArr urlList, b_message = JStr m, b_conversationHistory = history\<rparr> =
           chat_pipeline w srv freshHandler urlList m (case history of None \<Rightarrow> [] | Some hs \<Rightarrow> hs)"
proof -
  from assms(3) have "m \<noteq> []" by (auto simp: trim_def)
  with assms show ?thesis
    by (simp add: api_chat_def freshHandler_def Let_def)
qed

text \<open>
  Claim C8: on a request with one to three URLs, each of the messages \<open>hi\<close>,
  \<open>Hello!\<close> and \<open>hey there\<close> is answered at once with status 200, one of the canned
  greetings and no documents, and the server state is left as it was: the cache is not
  consulted, no index is built and the graph (retrieval and every LLM call) is not
  invoked. The message \<open>hi-5\<close> takes no shortcut: the handler goes on to the cache key
  and the races. \<open>Math.random()\<close> lies in \<open>[0, 1)\<close>.
\<close>

theorem greetings_short_circuit:
  assumes "urlList \<noteq> []" and "length urlList \<le> 3" and "0 \<le> random w" and "random w < 1"
  shows "(\<forall>m \<in> {''hi'', ''Hello!'', ''hey there''}. \<exists>canned \<in> set greetingResponses.
            api_chat w srv \<lparr>b_urls = JArr urlList, b_message = JStr m, b_conversationHistory = history\<rparr> =
              (\<lparr>responseSent = True, sent = [\<lparr>status = 200, payload = ChatReply (Text canned) []\<rparr>]\<rparr>, srv))
         \<and> api_chat w srv \<lparr>b_urls = JArr urlList, b_message = JStr ''hi-5'', b_conversationHistory = history\<rparr> =
             chat_pipeline w srv freshHandler urlList ''hi-5'' (case history of None \<Rightarrow> [] | Some hs \<Rightarrow> hs)
         \<and> (\<exists>more. effects (snd (api_chat w srv
               \<lparr>b_urls = JArr urlList, b_message = JStr ''hi-5'', b_conversationHistory = history\<rparr>)) =
             effects srv @ CacheHas (cacheKeyOf urlList) # more)"
proof -
  obtain canned where canned: "canned \<in> set greetingResponses" "randomResponse w = Text canned"
    using randomResponse_canned [OF assms(3,4)] by blast
  have "api_chat w srv \<lparr>b_urls = JArr urlList, b_message = JStr m, b_conversationHistory = history\<rparr> =
          (\<lparr>responseSent = True, sent = [\<lparr>status = 200, payload = ChatReply (Text canned) []\<rparr>]\<rparr>, srv)"
    if "m \<in> {''hi'', ''Hello!'', ''hey there''}" for m
  proof -
    from that have "trim m \<noteq> []" "isGreeting (toLowerCase (trim m))"
      using normalized_greetings by auto
    from api_chat_greeting [OF assms(1,2) this] canned(2) show ?thesis by simp
  qed
  with canned(1) have greet: "\<forall>m \<in> {''hi'', ''Hello!'', ''hey there''}. \<exists>canned \<in> set greetingResponses.
            api_chat w srv \<lparr>b_urls = JArr urlList, b_message = JStr m, b_conversationHistory = history\<rparr> =
              (\<lparr>responseSent = True, sent = [\<lparr>status = 200, payload = ChatReply (Text canned) []\<rparr>]\<rparr>, srv)"
    by blast
  have pipe: "api_chat w srv \<lparr>b_urls = JArr urlList, b_message = JStr ''hi-5'', b_conversationHistory = history\<rparr> =
      chat_pipeline w srv freshHandler urlList ''hi-5'' (case history of None \<Rightarrow> [] | Some hs \<Rightarrow> hs)"
    by (rule api_chat_no_shortcut [OF assms(1,2) normalized_greetings(8,7,9)])
  have "\<exists>more. effects (snd (chat_pipeline w srv freshHandler urlList ''hi-5''
        (case history of None \<Rightarrow> [] | Some hs \<Rightarrow> hs))) =
      effects srv @ CacheHas (cacheKeyOf urlList) # more"
    using effects_chat_pipeline [of w srv freshHandler urlList "''hi-5''"] by blast
  with greet pipe show ?thesis by simp
qed

theorem greetings_short_circuit_witness:
  "statuses (fst (api_chat quietWorld coldServer (chatRequest [''https://example.com/a''] ''Hello!''))) = [200]
   \<and> snd (api_chat quietWorld coldServer (chatRequest [''https://example.com/a''] ''Hello!'')) = coldServer
   \<and> effects (snd (api_chat quietWorld coldServer (chatRequest [''https://example.com/a''] ''hi-5''))) \<noteq> []"
proof -
  have h: "[''https://example.com/a''] \<noteq> []" "length [''https://example.com/a''] \<le> 3"
    "0 \<le> random quietWorld" "random quietWorld < 1"
    by (simp_all add: quietWorld_def)
  note all = greetings_short_circuit [OF h, of coldServer None]
  from all obtain canned where
    "api_chat quietWorld coldServer (chatRequest [''https://example.com/a''] ''Hello!'') =
       (\<lparr>responseSent = True, sent = [\<lparr>status = 200, payload = ChatReply (Text canned) []\<rparr>]\<rparr>, coldServer)"
    unfolding chatRequest_def by blast
  moreover from all obtain more where
    "effects (snd (api_chat quietWorld coldServer (chatRequest [''https://example.com/a''] ''hi-5''))) =
       effects coldServer @ CacheHas (cacheKeyOf [''https://example.com/a'']) # more"
    unfolding chatRequest_def by blast
  ultimately show ?thesis
    by (simp add: statuses_def)
qed

lemma statuses_chat_catch:
  "statuses (chat_catch freshHandler error) =
     [if includesStr (errorMessage error) ''timeout'' then 408 else 500]"
  by (cases "errorMessage error")
     (simp_all add: chat_catch_def sendResponse_def freshHandler_def statuses_def Let_def)

lemma timeoutError_includes: "includesStr (errorMessage timeoutError) ''timeout''"
  by (simp add: timeoutError_def)

lemma timeoutError_status: "statuses (chat_catch freshHandler timeoutError) = [408]"
  by (simp add: statuses_chat_catch timeoutError_includes)

text \<open>
  Claim C9 says that only the timeouts of the two races are answered with 408 and every
  other failure with 500. The \<open>catch\<close> block tells a timeout by the word \<open>timeout\<close>
  in the error's message, so a build that fails in time with such a message is answered
  with 408 too.
\<close>

theorem chat_build_error_named_timeout:
  "elapsed (vectorStoreRace (buildFailsWith ''connect timeout'') coldServer [''https://example.com/a''])
     < timeoutMs (buildFailsWith ''connect timeout'') coldServer [''https://example.com/a'']
   \<and> settledWith (vectorStoreRace (buildFailsWith ''connect timeout'') coldServer [''https://example.com/a''])
     = Inl (Error ''connect timeout'')
   \<and> statuses (fst (api_chat (buildFailsWith ''connect timeout'') coldServer
       (chatRequest [''https://example.com/a''] ''What is this about?''))) = [408]"
  by (simp add: api_chat_def chat_pipeline_def vectorStoreRace_def timeoutMs_def isFirstLoad_def
      FIRST_LOAD_TIMEOUT_MS_def chat_catch_def sendResponse_def statuses_def
      isGreeting_def greetings_def simpleResponses_def
      fixtures js_string store_defs Let_def)

text \<open>
  Claim C9, amended: a \<open>/chat\<close> request that fails after validation is answered
  once. A timeout of either race is answered with 408; a build or a pipeline run that
  fails before its deadline is answered with 408 when the error's message contains
  \<open>timeout\<close>, and with 500 otherwise.
\<close>

theorem chat_failure_status:
  "(timeoutMs w srv urlList \<le> elapsed (vectorStoreRace w srv urlList) \<longrightarrow>
      statuses (fst (chat_pipeline w srv freshHandler urlList msg history)) = [408])
   \<and> (elapsed (vectorStoreRace w srv urlList) < timeoutMs w srv urlList
        \<and> settledWith (vectorStoreRace w srv urlList) = Inl error \<longrightarrow>
      statuses (fst (chat_pipeline w srv freshHandler urlList msg history)) =
        [if includesStr (errorMessage error) ''timeout'' then 408 else 500])
   \<and> (elapsed (vectorStoreRace w srv urlList) < timeoutMs w srv urlList
        \<and> settledWith (vectorStoreRace w srv urlList) = Inr vs
        \<and> graphTimeoutMs w srv urlList \<le> graphTime w \<longrightarrow>
      statuses (fst (chat_pipeline w srv freshHandler urlList msg history)) = [408])
   \<and> (elapsed (vectorStoreRace w srv urlList) < timeoutMs w srv urlList
        \<and> settledWith (vectorStoreRace w srv urlList) = Inr vs
        \<and> graphTime w < graphTimeoutMs w srv urlList
        \<and> outcome (graph_invoke w (invokeInput msg (sort urlList) vs history)) = Inl error \<longrightarrow>
      statuses (fst (chat_pipeline w srv freshHandler urlList msg history)) =
        [if includesStr (errorMessage error) ''timeout'' then 408 else 500])"
  by (simp add: chat_pipeline_def Let_def statuses_chat_catch timeoutError_includes
      urlsAfter_vectorStoreRace)

theorem chat_failure_status_witness:
  "statuses (fst (chat_pipeline (buildTakes 200000 quietWorld) coldServer freshHandler
      [''https://example.com/a''] ''What is this about?'' [])) = [408]
   \<and> statuses (fst (chat_pipeline (buildFailsWith ''fetch failed'') coldServer freshHandler
      [''https://example.com/a''] ''What is this about?'' [])) = [500]"
proof -
  let ?us = "[''https://example.com/a'']"
  have slow: "timeoutMs (buildTakes 200000 quietWorld) coldServer ?us
      \<le> elapsed (vectorStoreRace (buildTakes 200000 quietWorld) coldServer ?us)"
    by (simp add: timeoutMs_def isFirstLoad_def FIRST_LOAD_TIMEOUT_MS_def vectorStoreRace_def
        fixtures store_defs Let_def)
  have failed: "elapsed (vectorStoreRace (buildFailsWith ''fetch failed'') coldServer ?us)
      < timeoutMs (buildFailsWith ''fetch failed'') coldServer ?us
    \<and> settledWith (vectorStoreRace (buildFailsWith ''fetch failed'') coldServer ?us)
      = Inl (Error ''fetch failed'')"
    by (simp add: timeoutMs_def isFirstLoad_def FIRST_LOAD_TIMEOUT_MS_def vectorStoreRace_def
        fixtures store_defs Let_def)
  have plain: "\<not> includesStr (errorMessage (Error ''fetch failed'')) ''timeout''"
    by simp
  from chat_failure_status [where w = "buildTakes 200000 quietWorld" and srv = coldServer
         and urlList = ?us and msg = "''What is this about?''" and history = "[]"]
       slow
       chat_failure_status [where w = "buildFailsWith ''fetch failed''" and srv = coldServer
         and urlList = ?us and msg = "''What is this about?''" and history = "[]"
         and error = "Error ''fetch failed''"]
       failed plain
  show ?thesis by simp
qed

lemma urls_GraphState:
  "urls (GraphState x y) = (case u_urls y of None \<Rightarrow> urls x | Some v \<Rightarrow> Some v)"
  by (simp add: GraphState_def)

lemma retrieveDocNode_urls: "retrieveDocNode w s = Inr u \<Longrightarrow> u_urls u = None"
  by (auto simp: retrieveDocNode_def noKeys_def Let_def split: option.splits sum.splits)

lemma createModelNode_urls: "u_urls (createModelNode s) = None"
  by (simp add: createModelNode_def noKeys_def)

lemma documentGrader_urls: "u_urls (documentGrader w s) = urls s"
  by (simp add: documentGrader_def spread_def Let_def)

lemma generateAnswer_urls: "generateAnswer w s = Inr u \<Longrightarrow> u_urls u = None"
  by (auto simp: generateAnswer_def noKeys_def Let_def split: sum.splits)

lemma gradeGeneratedAnswer_urls:
  "u_urls (gradeGeneratedAnswer w s) = None \<or> u_urls (gradeGeneratedAnswer w s) = urls s"
  by (simp add: gradeGeneratedAnswer_def noKeys_def spread_def split: option.splits sum.splits)

lemma urls_gradedState:
  assumes "u_urls input = Some us" and "gradedState w input = Inr s"
  shows "urls s = Some us"
proof -
  from assms(2) obtain u1 where u1: "retrieveDocNode w (GraphState channelDefaults input) = Inr u1"
    and s: "s = GraphState (GraphState (GraphState (GraphState channelDefaults input) u1)
                 (createModelNode (GraphState (GraphState channelDefaults input) u1)))
               (documentGrader w (GraphState (GraphState (GraphState channelDefaults input) u1)
                 (createModelNode (GraphState (GraphState channelDefaults input) u1))))"
    by (rule gradedState_Inr)
  have s0: "urls (GraphState channelDefaults input) = Some us"
    using assms(1) by (simp add: urls_GraphState)
  have s1: "urls (GraphState (GraphState channelDefaults input) u1) = Some us"
    using s0 retrieveDocNode_urls [OF u1] by (simp add: urls_GraphState)
  show ?thesis
    unfolding s
    using s1 by (simp add: urls_GraphState createModelNode_urls documentGrader_urls)
qed

lemma urls_graph_invoke:
  assumes "u_urls input = Some us" and "outcome (graph_invoke w input) = Inr final"
  shows "urls final = Some us"
proof (cases "gradedState w input")
  case (Inl error)
  with assms(2) show ?thesis by (simp add: graph_invoke_def)
next
  case (Inr s)
  have s: "urls s = Some us"
    using assms(1) Inr by (rule urls_gradedState)
  show ?thesis
  proof (cases "hasRelevantDocs s = ''yes''")
    case False
    with Inr assms(2) s show ?thesis by (simp add: graph_invoke_def)
  next
    case True
    with Inr assms(2) obtain u4 where u4: "generateAnswer w s = Inr u4"
      and final: "final = GraphState (GraphState s u4) (gradeGeneratedAnswer w (GraphState s u4))"
      by (auto simp: graph_invoke_def Let_def split: sum.splits)
    have s4: "urls (GraphState s u4) = Some us"
      using s generateAnswer_urls [OF u4] by (simp add: urls_GraphState)
    from gradeGeneratedAnswer_urls [of w "GraphState s u4"] s4 show ?thesis
      unfolding final by (auto simp: urls_GraphState)
  qed
qed

lemma urlsAfter_getOrCreateVectorStore:
  "urlsAfter (getOrCreateVectorStore w srv urlList) = sort urlList"
  by (simp add: getOrCreateVectorStore_def getOrCreateVectorStore_begin_def Let_def
      split: option.splits)

lemma newEffects_getOrCreateVectorStore_exact:
  "newEffects srv (serverAfter (getOrCreateVectorStore w srv urlList)) =
     CacheHas (cacheKeyOf urlList)
       # (if vectorStoreCache srv (cacheKeyOf urlList) = None
          then [BuildVectorStore (sort urlList)] else [])"
  by (simp add: newEffects_def getOrCreateVectorStore_def getOrCreateVectorStore_begin_def
      getOrCreateVectorStore_resume_def cacheKeyOf_def Let_def split: option.splits)

lemma effects_vectorStoreRace_exact:
  "effects (serverAfter (vectorStoreRace w srv urlList)) =
     effects srv @ [CacheHas (cacheKeyOf urlList), CacheHas (cacheKeyOf urlList)]
       @ (if isFirstLoad srv urlList then [BuildVectorStore (sort urlList)] else [])"
  by (simp add: vectorStoreRace_def getOrCreateVectorStore_def getOrCreateVectorStore_begin_def
      getOrCreateVectorStore_resume_def cacheKeyOf_def isFirstLoad_def sort_sort Let_def
      split: option.splits)

lemma snd_chat_pipeline:
  "snd (chat_pipeline w srv h urlList msg history) =
     (case settledWith (vectorStoreRace w srv urlList) of
        Inr vs \<Rightarrow>
          if elapsed (vectorStoreRace w srv urlList) < timeoutMs w srv urlList
          then (serverAfter (vectorStoreRace w srv urlList))
                 \<lparr>effects := effects (serverAfter (vectorStoreRace w srv urlList))
                    @ [GraphInvoke (invokeInput msg (sort urlList) vs history)]\<rparr>
          else serverAfter (vectorStoreRace w srv urlList)
      | Inl error \<Rightarrow> serverAfter (vectorStoreRace w srv urlList))"
  by (simp add: chat_pipeline_def Let_def urlsAfter_vectorStoreRace not_less split: sum.splits)

lemma newEffects_chat_pipeline_exact:
  "newEffects srv (snd (chat_pipeline w srv h urlList msg history)) =
     [CacheHas (cacheKeyOf urlList), CacheHas (cacheKeyOf urlList)]
       @ (if isFirstLoad srv urlList then [BuildVectorStore (sort urlList)] else [])
       @ (case settledWith (vectorStoreRace w srv urlList) of
            Inr vs \<Rightarrow>
              if elapsed (vectorStoreRace w srv urlList) < timeoutMs w srv urlList
              then [GraphInvoke (invokeInput msg (sort urlList) vs history)] else []
          | Inl error \<Rightarrow> [])"
  by (simp add: newEffects_def snd_chat_pipeline effects_vectorStoreRace_exact split: sum.splits)

text \<open>
  Claim C10: computing the cache key sorts the caller's array in place, and what comes
  after sees the sorted array. After \<open>getOrCreateVectorStore\<close> the array is the sorted
  one, and on a miss the call starts \<open>buildVectorStore\<close> on the sorted URLs. The
  \<open>/chat\<close> handler does, past the shortcuts, exactly this: two lookups of the key, on a
  first load one \<open>buildVectorStore\<close> on the sorted URLs, and, when the store arrives
  before the deadline, one \<open>graph.invoke\<close> whose state holds the sorted URLs in its
  \<open>urls\<close> field; every final state of that run holds them too.
\<close>

theorem cache_key_sorts_request_urls:
  "urlsAfter (getOrCreateVectorStore w srv urlList) = sort urlList
   \<and> newEffects srv (serverAfter (getOrCreateVectorStore w srv urlList)) =
       CacheHas (cacheKeyOf urlList)
         # (if vectorStoreCache srv (cacheKeyOf urlList) = None
            then [BuildVectorStore (sort urlList)] else [])
   \<and> newEffects srv (snd (chat_pipeline w srv h urlList msg history)) =
       [CacheHas (cacheKeyOf urlList), CacheHas (cacheKeyOf urlList)]
         @ (if isFirstLoad srv urlList then [BuildVectorStore (sort urlList)] else [])
         @ (case settledWith (vectorStoreRace w srv urlList) of
              Inr vs \<Rightarrow>
                if elapsed (vectorStoreRace w srv urlList) < timeoutMs w srv urlList
                then [GraphInvoke (invokeInput msg (sort urlList) vs history)] else []
            | Inl error \<Rightarrow> [])
   \<and> u_urls (invokeInput msg (sort urlList) vs history) = Some (sort urlList)
   \<and> (\<forall>final. outcome (graph_invoke w (invokeInput msg (sort urlList) vs history)) = Inr final \<longrightarrow>
         urls final = Some (sort urlList))"
proof -
  have input: "u_urls (invokeInput msg (sort urlList) vs history) = Some (sort urlList)"
    by (simp add: invokeInput_def noKeys_def)
  have "\<forall>final. outcome (graph_invoke w (invokeInput msg (sort urlList) vs history)) = Inr final \<longrightarrow>
         urls final = Some (sort urlList)"
    using urls_graph_invoke [OF input] by blast
  with input show ?thesis
    by (simp only: urlsAfter_getOrCreateVectorStore newEffects_getOrCreateVectorStore_exact
        newEffects_chat_pipeline_exact simp_thms)
qed

theorem cache_key_sorts_request_urls_witness:
  "[''https://example.com/b'', ''https://example.com/a'']
     \<noteq> [''https://example.com/a'', ''https://example.com/b'']
   \<and> urlsAfter (getOrCreateVectorStore quietWorld coldServer
        [''https://example.com/b'', ''https://example.com/a'']) =
       [''https://example.com/a'', ''https://example.com/b'']
   \<and> newEffects coldServer (snd (chat_pipeline quietWorld coldServer freshHandler
        [''https://example.com/b'', ''https://example.com/a''] ''What is this about?'' [])) =
       [CacheHas ''https://example.com/a|https://example.com/b'',
        CacheHas ''https://example.com/a|https://example.com/b'',
        BuildVectorStore [''https://example.com/a'', ''https://example.com/b''],
        GraphInvoke (invokeInput ''What is this about?''
          [''https://example.com/a'', ''https://example.com/b''] 0 [])]
   \<and> (case outcome (graph_invoke quietWorld (invokeInput ''What is this about?''
          [''https://example.com/a'', ''https://example.com/b''] 0 [])) of
        Inr final \<Rightarrow> urls final = Some [''https://example.com/a'', ''https://example.com/b'']
      | Inl error \<Rightarrow> False)"
proof -
  let ?ba = "[''https://example.com/b'', ''https://example.com/a'']"
  let ?q = "''What is this about?''"
  have sortedUrls: "sort ?ba = [''https://example.com/a'', ''https://example.com/b'']"
    by simp
  have key: "cacheKeyOf ?ba = ''https://example.com/a|https://example.com/b''"
    by (simp add: cacheKeyOf_def)
  have first: "isFirstLoad coldServer ?ba"
    by (simp add: isFirstLoad_def coldServer_def)
  have race: "settledWith (vectorStoreRace quietWorld coldServer ?ba) = Inr 0"
    "elapsed (vectorStoreRace quietWorld coldServer ?ba) < timeoutMs quietWorld coldServer ?ba"
    by (simp_all add: vectorStoreRace_def timeoutMs_def isFirstLoad_def FIRST_LOAD_TIMEOUT_MS_def
        fixtures store_defs Let_def)
  obtain final where final: "outcome (graph_invoke quietWorld (invokeInput ?q (sort ?ba) 0 [])) = Inr final"
    by (simp add: graph_defs fixtures Let_def)
  note inst = cache_key_sorts_request_urls [of quietWorld coldServer ?ba freshHandler ?q "[]" 0]
  from inst final have "urls final = Some (sort ?ba)"
    by blast
  with final have run: "(case outcome (graph_invoke quietWorld (invokeInput ?q (sort ?ba) 0 [])) of
        Inr final \<Rightarrow> urls final = Some (sort ?ba) | Inl error \<Rightarrow> False)"
    by simp
  from inst have "urlsAfter (getOrCreateVectorStore quietWorld coldServer ?ba) = sort ?ba"
    and "newEffects coldServer (snd (chat_pipeline quietWorld coldServer freshHandler ?ba ?q [])) =
       [CacheHas (cacheKeyOf ?ba), CacheHas (cacheKeyOf ?ba)]
         @ (if isFirstLoad coldServer ?ba then [BuildVectorStore (sort ?ba)] else [])
         @ (case settledWith (vectorStoreRace quietWorld coldServer ?ba) of
              Inr vs \<Rightarrow>
                if elapsed (vectorStoreRace quietWorld coldServer ?ba) < timeoutMs quietWorld coldServer ?ba
                then [GraphInvoke (invokeInput ?q (sort ?ba) vs [])] else []
            | Inl error \<Rightarrow> [])"
    by blast+
  with run show ?thesis
    unfolding key sortedUrls using first race by simp
qed

end
